theory Spec2Isabelle
  imports Main "HOL-Library.AList"
begin

section \<open>Values, tables, errors\<close>

text \<open>
  A cell of a table, and the value of a filter predicate, is null (Python's \<open>None\<close>,
  pandas' NaN), an integer or a string. A row is a record keyed by column label; a table
  is the list of its column labels and the ordered list of its rows.
\<close>

datatype val = VNull | VInt int | VStr string

type_synonym row = "(string \<times> val) list"

record DataFrame =
  columns :: "string list"
  rows :: "row list"

text \<open>The exceptions of the Python source, as values.\<close>

datatype err =
    AssertionError
  | KeyError string
  | TypeError
  | AttributeError
  | ValueError string
  | NotImplementedError
  | OtherError string

text \<open>The structured query of the SQL parser is a JSON value; the query itself a dict.\<close>

datatype json =
    JNull
  | JInt int
  | JStr string
  | JList "json list"
  | JDict "(string \<times> json) list"

type_synonym pydict = "(string \<times> string) list"

text \<open>
  The collaborators that the module imports or that a subclass supplies:
  \<^item> \<open>ds_setup\<close>: the method \<open>_setup\<close> of the concrete data source, called with no
    query (\<open>None\<close>) or with \<open>query=...\<close>; it returns the table and its column map or raises;
  \<^item> \<open>parse_sql\<close>, \<open>format_sql\<close>: \<open>moz_sql_parser.parse\<close> and \<open>moz_sql_parser.format\<close>;
  \<^item> \<open>binary_ops\<close>: the operator table \<open>moz_sql_parser.keywords.binary_ops\<close>;
  \<^item> \<open>DATA_TYPES_SUBTYPES\<close>: the registry of types and their subtypes;
  \<^item> \<open>to_numeric\<close>: \<open>pd.to_numeric(..., errors='coerce')\<close> on one cell, \<open>None\<close> for NaN;
  \<^item> \<open>str_contains\<close>: \<open>Series.str.contains(pat)\<close> on a column, the mask or the exception;
  \<^item> \<open>str_lower\<close>: Python's \<open>str.lower\<close>, which knows the case mapping of Unicode.
\<close>

record env =
  ds_setup :: "string option \<Rightarrow> err + (DataFrame \<times> pydict)"
  parse_sql :: "string \<Rightarrow> err + (string \<times> json) list"
  format_sql :: "(string \<times> json) list \<Rightarrow> err + string"
  binary_ops :: "pydict"
  DATA_TYPES_SUBTYPES :: "(string \<times> string list) list"
  to_numeric :: "val \<Rightarrow> int option"
  str_contains :: "val list \<Rightarrow> string \<Rightarrow> err + bool list"
  str_lower :: "string \<Rightarrow> string"

definition bindE :: "err + 'a \<Rightarrow> ('a \<Rightarrow> err + 'b) \<Rightarrow> err + 'b" where
  "bindE m f = (case m of Inl e \<Rightarrow> Inl e | Inr x \<Rightarrow> f x)"

section \<open>Python strings\<close>

text \<open>
  \<open>str.lower\<close> on the letters of ASCII: what the example source below uses for
  \<open>str_lower\<close>.
\<close>

definition lower_char :: "char \<Rightarrow> char" where
  "lower_char c =
     (if (65::nat) \<le> of_char c \<and> of_char c \<le> (90::nat)
      then char_of (of_char c + (32::nat)) else c)"

definition lower :: "string \<Rightarrow> string" where
  "lower s = map lower_char s"

definition strip :: "char \<Rightarrow> string \<Rightarrow> string" where
  "strip c s = rev (dropWhile (\<lambda>x. x = c) (rev (dropWhile (\<lambda>x. x = c) s)))"

definition remove_char :: "char \<Rightarrow> string \<Rightarrow> string" where
  "remove_char c s = filter (\<lambda>x. x \<noteq> c) s"

definition replace_char :: "char \<Rightarrow> char \<Rightarrow> string \<Rightarrow> string" where
  "replace_char a b s = map (\<lambda>x. if x = a then b else x) s"

fun digits :: "nat \<Rightarrow> string" where
  "digits n =
     (if n < 10 then [char_of (48 + n)]
      else digits (n div 10) @ [char_of (48 + n mod 10)])"

definition str_of_int :: "int \<Rightarrow> string" where
  "str_of_int i = (if i < 0 then CHR ''-'' # digits (nat (- i)) else digits (nat i))"

fun str :: "val \<Rightarrow> string" where
  "str VNull = ''None''"
| "str (VInt i) = str_of_int i"
| "str (VStr s) = s"

fun starts_with :: "string \<Rightarrow> string \<Rightarrow> bool" where
  "starts_with [] ys = True"
| "starts_with (x # xs) [] = False"
| "starts_with (x # xs) (y # ys) = (x = y \<and> starts_with xs ys)"

fun substring_of :: "string \<Rightarrow> string \<Rightarrow> bool" where
  "substring_of xs [] = (xs = [])"
| "substring_of xs (y # ys) = (starts_with xs (y # ys) \<or> substring_of xs ys)"

section \<open>Tables\<close>

definition cell :: "row \<Rightarrow> string \<Rightarrow> val" where
  "cell r c = (case map_of r c of Some v \<Rightarrow> v | None \<Rightarrow> VNull)"

definition column :: "DataFrame \<Rightarrow> string \<Rightarrow> val list" where
  "column df c = map (\<lambda>r. cell r c) (rows df)"

definition select_rows :: "(row \<Rightarrow> bool) \<Rightarrow> DataFrame \<Rightarrow> DataFrame" where
  "select_rows p df = df\<lparr>rows := filter p (rows df)\<rparr>"

definition select_mask :: "bool list \<Rightarrow> DataFrame \<Rightarrow> DataFrame" where
  "select_mask m df = df\<lparr>rows := map snd (filter fst (zip m (rows df)))\<rparr>"

definition df_head :: "int \<Rightarrow> DataFrame \<Rightarrow> DataFrame" where
  "df_head n df =
     (if 0 \<le> n then df\<lparr>rows := take (nat n) (rows df)\<rparr>
      else df\<lparr>rows := take (length (rows df) - nat (- n)) (rows df)\<rparr>)"

text \<open>Python's \<open>repr\<close> of a list of strings without quotes or escapes in them.\<close>

fun repr_items :: "string list \<Rightarrow> string" where
  "repr_items [] = []"
| "repr_items [x] = [CHR 0x27] @ x @ [CHR 0x27]"
| "repr_items (x # y # ys) = [CHR 0x27] @ x @ [CHR 0x27] @ '', '' @ repr_items (y # ys)"

definition repr_list :: "string list \<Rightarrow> string" where
  "repr_list xs = ''['' @ repr_items xs @ '']''"

text \<open>
  \<open>df.drop(columns=cs, inplace=True)\<close>: when labels of \<open>cs\<close> are not columns of the
  table, \<open>KeyError\<close> with the message that lists them; else the table without them.
\<close>

definition df_drop :: "string list \<Rightarrow> DataFrame \<Rightarrow> err + DataFrame" where
  "df_drop cs df =
     (case filter (\<lambda>c. c \<notin> set (columns df)) cs of
        c # missing \<Rightarrow> Inl (KeyError (repr_list (c # missing) @ '' not found in axis''))
      | [] \<Rightarrow> Inr \<lparr>columns = filter (\<lambda>c. c \<notin> set cs) (columns df),
                  rows = map (filter (\<lambda>kv. fst kv \<notin> set cs)) (rows df)\<rparr>)"

section \<open>The in-memory evaluator \<open>_filter_df\<close>\<close>

type_synonym condition = "string \<times> string \<times> val"

definition notnull :: "string \<Rightarrow> DataFrame \<Rightarrow> err + DataFrame" where
  "notnull col df =
     (if col \<in> set (columns df) then Inr (select_rows (\<lambda>r. cell r col \<noteq> VNull) df)
      else Inl (KeyError col))"

text \<open>
  \<open>df[pd.to_numeric(df[col], errors='coerce') > val]\<close>, and the same with \<open><\<close>: a
  cell that is not numeric becomes NaN and compares false; against \<open>None\<close> every cell
  compares false; against a string the comparison raises \<open>TypeError\<close>.
\<close>

definition numeric_cmp ::
  "env \<Rightarrow> (int \<Rightarrow> int \<Rightarrow> bool) \<Rightarrow> string \<Rightarrow> val \<Rightarrow> DataFrame \<Rightarrow> err + DataFrame" where
  "numeric_cmp E cmp col v df =
     (case v of
        VInt n \<Rightarrow> Inr (select_rows
                    (\<lambda>r. case to_numeric E (cell r col) of Some m \<Rightarrow> cmp m n | None \<Rightarrow> False) df)
      | VNull \<Rightarrow> Inr (select_rows (\<lambda>r. False) df)
      | VStr x \<Rightarrow> Inl TypeError)"

definition like_step :: "env \<Rightarrow> string \<Rightarrow> val \<Rightarrow> DataFrame \<Rightarrow> err + DataFrame" where
  "like_step E col v df =
     bindE (str_contains E (column df col) (remove_char CHR ''%'' (str v)))
       (\<lambda>m. Inr (select_mask m df))"

definition filter_df :: "env \<Rightarrow> condition \<Rightarrow> DataFrame \<Rightarrow> err + DataFrame" where
  "filter_df E raw_condition df0 =
     (case raw_condition of (col, cond0, v) \<Rightarrow>
        let cond = str_lower E cond0 in
        bindE (notnull col df0) (\<lambda>df1.
        bindE (if cond = ''>'' then numeric_cmp E (\<lambda>m n. m > n) col v df1 else Inr df1) (\<lambda>df2.
        bindE (if cond = ''<'' then numeric_cmp E (\<lambda>m n. m < n) col v df2 else Inr df2) (\<lambda>df3.
        bindE (if cond = ''like'' then like_step E col v df3 else Inr df3) (\<lambda>df4.
        bindE (if cond = ''=''
               then Inr (select_rows (\<lambda>r. cell r col = v \<or> cell r col = VStr (str v)) df4)
               else Inr df4) (\<lambda>df5.
        bindE (if cond = ''!=''
               then Inr (select_rows (\<lambda>r. cell r col \<noteq> v \<and> cell r col \<noteq> VStr (str v)) df5)
               else Inr df5) (\<lambda>df6.
        Inr df6)))))))"


fun filter_all :: "env \<Rightarrow> condition list \<Rightarrow> DataFrame \<Rightarrow> err + DataFrame" where
  "filter_all E [] df = Inr df"
| "filter_all E (c # cs) df = bindE (filter_df E c df) (filter_all E cs)"

section \<open>The data source and its lazy state\<close>

text \<open>
  The column map is the dict that \<open>_setup\<close> returns. The accessor \<open>_col_map\<close> can also
  store a column label there: it unpacks the result of \<open>filter\<close> as a pair, and
  unpacking a table of two columns yields its two labels.
\<close>

datatype col_map = ColDict pydict | ColLabel string

text \<open>
  The fields of \<open>__init__\<close>. \<open>warnings\<close> is not a field of the class: it holds the
  messages given to \<open>log.warning\<close> so far, so that a warning is observable.
\<close>

record DataSource =
  data_types :: pydict
  data_subtypes :: pydict
  internal_df :: "DataFrame option"
  internal_col_map :: "col_map option"
  is_sql :: bool
  query :: "string option"
  warnings :: "string list"

definition init :: "string option \<Rightarrow> DataSource" where
  "init sql_query =
     \<lparr>data_types = [], data_subtypes = [], internal_df = None, internal_col_map = None,
      is_sql = (sql_query \<noteq> None), query = sql_query, warnings = []\<rparr>"

definition warning :: "string \<Rightarrow> DataSource \<Rightarrow> DataSource" where
  "warning msg s = s\<lparr>warnings := warnings s @ [msg]\<rparr>"

text \<open>The property \<open>df\<close>.\<close>

definition prop_df :: "env \<Rightarrow> DataSource \<Rightarrow> (err + DataFrame) \<times> DataSource" where
  "prop_df E s =
     (case internal_df s of
        Some t \<Rightarrow> (Inr t, s)
      | None \<Rightarrow>
          (case ds_setup E None of
             Inl e \<Rightarrow> (Inl e, s)
           | Inr (t, cm) \<Rightarrow>
               (Inr t, s\<lparr>internal_df := Some t, internal_col_map := Some (ColDict cm)\<rparr>)))"

section \<open>The pushdown translator\<close>

definition py_len :: "json \<Rightarrow> err + nat" where
  "py_len j =
     (case j of
        JDict kvs \<Rightarrow> Inr (length kvs)
      | JList xs \<Rightarrow> Inr (length xs)
      | JStr x \<Rightarrow> Inr (length x)
      | _ \<Rightarrow> Inl TypeError)"

fun json_of_val :: "val \<Rightarrow> json" where
  "json_of_val VNull = JNull"
| "json_of_val (VInt i) = JInt i"
| "json_of_val (VStr x) = JStr x"

definition op_warning :: "string \<Rightarrow> string" where
  "op_warning op =
     ''Operator: '' @ op @ '' not found in: QueryBuilder._OPERATORS'' @ [CHR 0x0A]
       @ '' Using it anyway.''"

definition like_value :: "env \<Rightarrow> string \<Rightarrow> val \<Rightarrow> err + val" where
  "like_value E op v =
     (if str_lower E op = ''like''
      then (case v of
              VStr x \<Rightarrow> Inr (VStr (''%'' @ strip CHR ''%'' x @ ''%''))
            | _ \<Rightarrow> Inl AttributeError)
      else Inr v)"

definition condition_clause :: "string \<Rightarrow> string \<Rightarrow> val \<Rightarrow> json" where
  "condition_clause op_json col v = JDict [(op_json, JList [JStr col, json_of_val v])]"

text \<open>One round of the loop over \<open>where\<close> in \<open>filter\<close>.\<close>

definition where_step ::
  "env \<Rightarrow> condition \<Rightarrow> (string \<times> json) list \<Rightarrow> DataSource
     \<Rightarrow> (err + (string \<times> json) list) \<times> DataSource" where
  "where_step E c parsed_query s =
     (case c of (col, op0, value0) \<Rightarrow>
        let past_where_clause =
              (case map_of parsed_query ''where'' of Some j \<Rightarrow> j | None \<Rightarrow> JDict []);
            op = str_lower E op0;
            (op_json, s1) =
              (case map_of (binary_ops E) op of
                 Some j \<Rightarrow> (j, s)
               | None \<Rightarrow> (str_lower E op, warning (op_warning op) s))
        in (case like_value E op value0 of
              Inl e \<Rightarrow> (Inl e, s1)
            | Inr v \<Rightarrow>
                (case py_len past_where_clause of
                   Inl e \<Rightarrow> (Inl e, s1)
                 | Inr n \<Rightarrow>
                     (Inr (AList.update ''where''
                            (if n > 0
                             then JDict [(''and'',
                                    JList [condition_clause op_json col v, past_where_clause])]
                             else condition_clause op_json col v)
                            parsed_query), s1))))"

fun where_loop ::
  "env \<Rightarrow> condition list \<Rightarrow> (string \<times> json) list \<Rightarrow> DataSource
     \<Rightarrow> (err + (string \<times> json) list) \<times> DataSource" where
  "where_loop E [] parsed_query s = (Inr parsed_query, s)"
| "where_loop E (c # cs) parsed_query s =
     (case where_step E c parsed_query s of
        (Inl e, s1) \<Rightarrow> (Inl e, s1)
      | (Inr pq1, s1) \<Rightarrow> where_loop E cs pq1 s1)"

text \<open>What \<open>filter\<close> returns: the pair of \<open>_setup\<close>, or the table alone.\<close>

datatype filter_result = RowsAndColMap DataFrame pydict | RowsOnly DataFrame

definition or_empty :: "'a list option \<Rightarrow> 'a list" where
  "or_empty w = (case w of None \<Rightarrow> [] | Some xs \<Rightarrow> xs)"

text \<open>The \<open>try\<close> block of \<open>filter\<close>.\<close>

definition pushdown ::
  "env \<Rightarrow> condition list option \<Rightarrow> int option \<Rightarrow> bool \<Rightarrow> DataSource
     \<Rightarrow> (err + filter_result) \<times> DataSource" where
  "pushdown E where_list limit get_col_map s =
     (if \<not> is_sql s then (Inl AssertionError, s)
      else
        (case (case query s of None \<Rightarrow> Inl TypeError | Some q \<Rightarrow> parse_sql E q) of
           Inl e \<Rightarrow> (Inl e, s)
         | Inr parsed_query \<Rightarrow>
             (case where_loop E (or_empty where_list) parsed_query s of
                (Inl e, s1) \<Rightarrow> (Inl e, s1)
              | (Inr pq1, s1) \<Rightarrow>
                  let pq2 = (case limit of
                               Some n \<Rightarrow> AList.update ''limit'' (JInt n) pq1
                             | None \<Rightarrow> pq1)
                  in (case format_sql E pq2 of
                        Inl e \<Rightarrow> (Inl e, s1)
                      | Inr q \<Rightarrow>
                          (case ds_setup E (Some (replace_char (CHR 0x22) (CHR 0x27) q)) of
                             Inl e \<Rightarrow> (Inl e, s1)
                           | Inr (t, cm) \<Rightarrow>
                               (Inr (if get_col_map then RowsAndColMap t cm else RowsOnly t),
                                s1))))))"

text \<open>The \<open>except\<close> block of \<open>filter\<close>.\<close>

definition fallback ::
  "env \<Rightarrow> condition list option \<Rightarrow> int option \<Rightarrow> DataSource
     \<Rightarrow> (err + filter_result) \<times> DataSource" where
  "fallback E where_list limit s =
     (case prop_df E s of
        (Inl e, s1) \<Rightarrow> (Inl e, s1)
      | (Inr df0, s1) \<Rightarrow>
          (case (if or_empty where_list \<noteq> [] then filter_all E (or_empty where_list) df0
                 else Inr df0) of
             Inl e \<Rightarrow> (Inl e, s1)
           | Inr df1 \<Rightarrow>
               (Inr (RowsOnly (case limit of
                             None \<Rightarrow> df1
                           | Some n \<Rightarrow> if n \<noteq> 0 then df_head n df1 else df1)), s1)))"

definition filter_ds ::
  "env \<Rightarrow> condition list option \<Rightarrow> int option \<Rightarrow> bool \<Rightarrow> DataSource
     \<Rightarrow> (err + filter_result) \<times> DataSource" where
  "filter_ds E where_list limit get_col_map s =
     (case pushdown E where_list limit get_col_map s of
        (Inr r, s1) \<Rightarrow> (Inr r, s1)
      | (Inl e, s1) \<Rightarrow> fallback E where_list limit s1)"

section \<open>The column map\<close>

text \<open>
  The assignment \<open>_, self._internal_col_map = self.filter(...)\<close>: a pair gives its
  second component; a table is iterated by column label and must have two of them.
\<close>

definition unpack_col_map :: "filter_result \<Rightarrow> err + col_map" where
  "unpack_col_map r =
     (case r of
        RowsAndColMap t cm \<Rightarrow> Inr (ColDict cm)
      | RowsOnly t \<Rightarrow>
          (case columns t of
             [] \<Rightarrow> Inl (ValueError ''not enough values to unpack (expected 2, got 0)'')
           | [a] \<Rightarrow> Inl (ValueError ''not enough values to unpack (expected 2, got 1)'')
           | [a, b] \<Rightarrow> Inr (ColLabel b)
           | _ \<Rightarrow> Inl (ValueError ''too many values to unpack (expected 2)'')))"

text \<open>The property \<open>_col_map\<close>.\<close>

definition prop_col_map :: "env \<Rightarrow> DataSource \<Rightarrow> (err + col_map) \<times> DataSource" where
  "prop_col_map E s =
     (case internal_col_map s of
        Some cm \<Rightarrow> (Inr cm, s)
      | None \<Rightarrow>
          if is_sql s
          then (case filter_ds E (Some []) (Some 1) True s of
                  (Inl e, s1) \<Rightarrow> (Inl e, s1)
                | (Inr r, s1) \<Rightarrow>
                    (case unpack_col_map r of
                       Inl e \<Rightarrow> (Inl e, s1)
                     | Inr cm \<Rightarrow> (Inr cm, s1\<lparr>internal_col_map := Some cm\<rparr>)))
          else (case ds_setup E None of
                  Inl e \<Rightarrow> (Inl e, s)
                | Inr (t, cm) \<Rightarrow>
                    (Inr (ColDict cm),
                     s\<lparr>internal_df := Some t, internal_col_map := Some (ColDict cm)\<rparr>)))"

text \<open>\<open>col in self._col_map\<close> and \<open>self._col_map[col]\<close>.\<close>

definition col_map_contains :: "string \<Rightarrow> col_map \<Rightarrow> bool" where
  "col_map_contains c cm =
     (case cm of ColDict d \<Rightarrow> map_of d c \<noteq> None | ColLabel l \<Rightarrow> substring_of c l)"

definition col_map_getitem :: "col_map \<Rightarrow> string \<Rightarrow> err + string" where
  "col_map_getitem cm c =
     (case cm of
        ColDict d \<Rightarrow> (case map_of d c of Some x \<Rightarrow> Inr x | None \<Rightarrow> Inl (KeyError c))
      | ColLabel l \<Rightarrow> Inl TypeError)"

section \<open>\<open>drop_columns\<close>\<close>

fun columns_to_drop ::
  "env \<Rightarrow> string list \<Rightarrow> string list \<Rightarrow> DataSource \<Rightarrow> (err + string list) \<times> DataSource" where
  "columns_to_drop E [] acc s = (Inr acc, s)"
| "columns_to_drop E (col # cs) acc s =
     (case prop_col_map E s of
        (Inl e, s1) \<Rightarrow> (Inl e, s1)
      | (Inr cm, s1) \<Rightarrow>
          if \<not> col_map_contains col cm then columns_to_drop E cs (acc @ [col]) s1
          else (case prop_col_map E s1 of
                  (Inl e, s2) \<Rightarrow> (Inl e, s2)
                | (Inr cm2, s2) \<Rightarrow>
                    (case col_map_getitem cm2 col of
                       Inl e \<Rightarrow> (Inl e, s2)
                     | Inr c \<Rightarrow> columns_to_drop E cs (acc @ [c]) s2)))"

definition drop_columns ::
  "env \<Rightarrow> string list \<Rightarrow> DataSource \<Rightarrow> (err + unit) \<times> DataSource" where
  "drop_columns E column_list s =
     (case columns_to_drop E column_list [] s of
        (Inl e, s1) \<Rightarrow> (Inl e, s1)
      | (Inr cs, s1) \<Rightarrow>
          (case internal_df s1 of
             None \<Rightarrow> (Inl AttributeError, s1)
           | Some t \<Rightarrow>
               (case df_drop cs t of
                  Inl e \<Rightarrow> (Inl e, s1)
                | Inr t' \<Rightarrow> (Inr (), s1\<lparr>internal_df := Some t'\<rparr>))))"

section \<open>\<open>set_subtypes\<close>\<close>

definition find_type :: "(string \<times> string list) list \<Rightarrow> string \<Rightarrow> string option" where
  "find_type registry subtype =
     map_option fst (find (\<lambda>entry. subtype \<in> set (snd entry)) registry)"

definition column_warning :: "string \<Rightarrow> string \<Rightarrow> string" where
  "column_warning col subtype =
     ''Column '' @ col @ '' not present in your data, ignoring the '' @ [CHR 0x22] @ subtype
       @ [CHR 0x22] @ '' subtype you specified for it''"

text \<open>The error that the spec calls \<open>InvalidSubtype\<close>, for a subtype.\<close>

definition invalid_subtype :: "string \<Rightarrow> err" where
  "invalid_subtype subtype = ValueError (''Invalid data subtype: '' @ subtype)"

fun set_subtypes :: "env \<Rightarrow> pydict \<Rightarrow> DataSource \<Rightarrow> (err + unit) \<times> DataSource" where
  "set_subtypes E [] s = (Inr (), s)"
| "set_subtypes E ((col, subtype) # rest) s =
     (case prop_col_map E s of
        (Inl e, s1) \<Rightarrow> (Inl e, s1)
      | (Inr cm, s1) \<Rightarrow>
          if \<not> col_map_contains col cm
          then set_subtypes E rest (warning (column_warning col subtype) s1)
          else (case find_type (DATA_TYPES_SUBTYPES E) subtype of
                  Some type \<Rightarrow>
                    set_subtypes E rest
                      (s1\<lparr>data_types := AList.update col type (data_types s1),
                          data_subtypes := AList.update col subtype (data_subtypes s1)\<rparr>)
                | None \<Rightarrow> (Inl (ValueError (''Invalid data subtype: '' @ subtype)), s1)))"

section \<open>An example data source\<close>

text \<open>
  A table of three rows with a null in each of two columns, a column map that renames
  both columns, and collaborators that always succeed; used to run the operations.
\<close>

definition sample_df :: DataFrame where
  "sample_df =
     \<lparr>columns = [''a'', ''b''],
      rows = [[(''a'', VInt 1), (''b'', VStr ''x'')],
              [(''a'', VNull), (''b'', VStr ''y'')],
              [(''a'', VInt 3), (''b'', VNull)]]\<rparr>"

definition sample_col_map :: pydict where
  "sample_col_map = [(''A'', ''a''), (''B'', ''b'')]"

definition sample_env :: env where
  "sample_env =
     \<lparr>ds_setup = (\<lambda>q. Inr (sample_df, sample_col_map)),
      parse_sql = (\<lambda>q. Inr [(''select'', JStr ''*''), (''from'', JStr ''t'')]),
      format_sql = (\<lambda>pq. Inr ''SELECT * FROM t''),
      binary_ops = [(''='', ''eq''), (''!='', ''neq''), (''>'', ''gt''), (''<'', ''lt''),
                    (''like'', ''like'')],
      DATA_TYPES_SUBTYPES = [(''Numeric'', [''Int'', ''Float'', ''Binary'']),
                             (''Text'', [''Short'', ''Rich''])],
      to_numeric = (\<lambda>v. case v of VInt n \<Rightarrow> Some n | _ \<Rightarrow> None),
      str_contains = (\<lambda>vs pat. Inr (map (\<lambda>v. case v of VStr x \<Rightarrow> substring_of pat x
                                                     | _ \<Rightarrow> False) vs)),
      str_lower = lower\<rparr>"

text \<open>The same source when the parser rejects the stored query.\<close>

definition sample_env_unparsable :: env where
  "sample_env_unparsable = sample_env\<lparr>parse_sql := (\<lambda>q. Inl (OtherError ''ParseException''))\<rparr>"

text \<open>
  The same source with a backend that honours a row limit: the formatter writes the
  \<open>limit\<close> of the structured query, and the query with \<open>LIMIT 0\<close> yields no rows.
\<close>

definition sample_env_limit :: env where
  "sample_env_limit =
     sample_env
       \<lparr>ds_setup := (\<lambda>q. if q = Some ''SELECT * FROM t LIMIT 0''
                          then Inr (sample_df\<lparr>rows := []\<rparr>, sample_col_map)
                          else Inr (sample_df, sample_col_map)),
        format_sql := (\<lambda>pq. Inr (''SELECT * FROM t'' @
                          (case map_of pq ''limit'' of
                             Some (JInt n) \<Rightarrow> '' LIMIT '' @ str_of_int n
                           | _ \<Rightarrow> [])))\<rparr>"

section \<open>The pairing of rows and column map\<close>

text \<open>The cached table and the cached column map are both set or both unset.\<close>

definition both_or_neither :: "DataSource \<Rightarrow> bool" where
  "both_or_neither s = ((internal_df s = None) = (internal_col_map s = None))"

text \<open>
  The states that a source constructed with \<open>sql_query\<close> reaches by the public
  operations: reading \<open>df\<close>, reading the column map, \<open>filter\<close>, \<open>drop_columns\<close> and
  \<open>set_subtypes\<close>, whether they return or raise.
\<close>

inductive reachable :: "env \<Rightarrow> string option \<Rightarrow> DataSource \<Rightarrow> bool" for E sql_query where
  constructed: "reachable E sql_query (init sql_query)"
| read_df: "reachable E sql_query s \<Longrightarrow> reachable E sql_query (snd (prop_df E s))"
| read_col_map: "reachable E sql_query s \<Longrightarrow> reachable E sql_query (snd (prop_col_map E s))"
| filtered:
    "reachable E sql_query s \<Longrightarrow> reachable E sql_query (snd (filter_ds E where_list limit get_col_map s))"
| dropped: "reachable E sql_query s \<Longrightarrow> reachable E sql_query (snd (drop_columns E column_list s))"
| subtyped: "reachable E sql_query s \<Longrightarrow> reachable E sql_query (snd (set_subtypes E m s))"

text \<open>What an operation leaves alone: everything but the log; the declared fields.\<close>

definition warnings_only :: "DataSource \<Rightarrow> DataSource \<Rightarrow> bool" where
  "warnings_only s s1 =
     (data_types s1 = data_types s \<and> data_subtypes s1 = data_subtypes s \<and>
      internal_df s1 = internal_df s \<and> internal_col_map s1 = internal_col_map s \<and>
      is_sql s1 = is_sql s \<and> query s1 = query s)"

definition declared_kept :: "DataSource \<Rightarrow> DataSource \<Rightarrow> bool" where
  "declared_kept s s1 =
     (data_types s1 = data_types s \<and> data_subtypes s1 = data_subtypes s \<and>
      is_sql s1 = is_sql s \<and> query s1 = query s)"

text \<open>The invariant of a source without a query.\<close>

definition paired :: "DataSource \<Rightarrow> bool" where
  "paired s = (\<not> is_sql s \<and> both_or_neither s)"

section \<open>Basic facts\<close>

lemma bindE_simps [simp]: "bindE (Inl e) f = Inl e" "bindE (Inr x) f = f x"
  by (simp_all add: bindE_def)

lemma rows_select_rows [simp]: "rows (select_rows p df) = filter p (rows df)"
  by (simp add: select_rows_def)

lemma columns_select_rows [simp]: "columns (select_rows p df) = columns df"
  by (simp add: select_rows_def)

lemma rows_select_mask: "set (rows (select_mask m df)) \<subseteq> set (rows df)"
  by (auto simp: select_mask_def dest: set_zip_rightD)

lemma numeric_cmp_rows:
  "numeric_cmp E cmp col v df = Inr df' \<Longrightarrow> set (rows df') \<subseteq> set (rows df)"
  by (auto simp: numeric_cmp_def split: val.splits)

lemma like_step_rows:
  "like_step E col v df = Inr df' \<Longrightarrow> set (rows df') \<subseteq> set (rows df)"
  using rows_select_mask by (auto simp: like_step_def bindE_def split: sum.splits)

lemma filter_df_rows:
  assumes "filter_df E (col, cond, v) df = Inr df'"
  shows "set (rows df') \<subseteq> {r \<in> set (rows df). cell r col \<noteq> VNull}"
  using assms
  apply (simp add: filter_df_def notnull_def Let_def bindE_def split: if_splits sum.splits)
  apply (auto dest!: numeric_cmp_rows like_step_rows)
  done

section \<open>The in-memory evaluator: unknown operators and nulls\<close>

text \<open>
  C5, as the claim states it, fails: with the operator \<open>foo\<close>, which is none of
  \<open>>\<close>, \<open><\<close>, \<open>like\<close>, \<open>=\<close>, \<open>!=\<close>, the evaluator removes the row of the example
  table whose column \<open>a\<close> is null, so it does not return exactly its input rows; and on a
  column that the table does not have it raises \<open>KeyError\<close>.
\<close>

theorem filter_df_unknown_operator_counterexample:
  "str_lower sample_env ''foo'' \<notin> {''>'', ''<'', ''like'', ''='', ''!=''} \<and>
   filter_df sample_env (''a'', ''foo'', VInt 1) sample_df =
     Inr \<lparr>columns = [''a'', ''b''],
          rows = [[(''a'', VInt 1), (''b'', VStr ''x'')], [(''a'', VInt 3), (''b'', VNull)]]\<rparr> \<and>
   filter_df sample_env (''a'', ''foo'', VInt 1) sample_df \<noteq> Inr sample_df \<and>
   filter_df sample_env (''c'', ''foo'', VInt 1) sample_df = Inl (KeyError ''c'')"
  by code_simp

text \<open>
  C5, amended: for a predicate whose lower-cased operator is none of \<open>>\<close>, \<open><\<close>,
  \<open>like\<close>, \<open>=\<close>, \<open>!=\<close>, on a column of the table, the evaluator raises no error and
  returns the input rows whose value in that column is not null, in their order: no
  comparison is applied, the null filter is.
\<close>

theorem filter_df_unknown_operator:
  assumes "str_lower E cond \<notin> {''>'', ''<'', ''like'', ''='', ''!=''}"
      and "col \<in> set (columns df)"
  shows "filter_df E (col, cond, v) df = Inr (select_rows (\<lambda>r. cell r col \<noteq> VNull) df)"
  using assms by (simp add: filter_df_def notnull_def Let_def)

theorem filter_df_unknown_operator_witness:
  "str_lower sample_env ''foo'' \<notin> {''>'', ''<'', ''like'', ''='', ''!=''} \<and> ''a'' \<in> set (columns sample_df) \<and>
   filter_df sample_env (''a'', ''foo'', VInt 1) sample_df =
     Inr (select_rows (\<lambda>r. cell r ''a'' \<noteq> VNull) sample_df)"
proof -
  have h1: "str_lower sample_env ''foo'' \<notin> {''>'', ''<'', ''like'', ''='', ''!=''}" by code_simp
  have h2: "''a'' \<in> set (columns sample_df)" by code_simp
  show ?thesis using h1 h2 filter_df_unknown_operator [OF h1 h2, of "VInt 1"] by simp
qed

text \<open>
  C7: whatever the operator, a row of the table that the evaluator returns for a
  predicate on column \<open>col\<close> has a value in \<open>col\<close> that is not null.
\<close>

theorem filter_df_excludes_null:
  assumes "filter_df E (col, cond, v) df = Inr df'"
      and "r \<in> set (rows df')"
  shows "cell r col \<noteq> VNull"
  using filter_df_rows [OF assms(1)] assms(2) by auto

theorem filter_df_excludes_null_witness:
  "filter_df sample_env (''a'', ''!='', VInt 1) sample_df =
     Inr \<lparr>columns = [''a'', ''b''], rows = [[(''a'', VInt 3), (''b'', VNull)]]\<rparr> \<and>
   [(''a'', VInt 3), (''b'', VNull)]
     \<in> set (rows \<lparr>columns = [''a'', ''b''], rows = [[(''a'', VInt 3), (''b'', VNull)]]\<rparr>) \<and>
   cell [(''a'', VInt 3), (''b'', VNull)] ''a'' \<noteq> VNull"
proof -
  have h1: "filter_df sample_env (''a'', ''!='', VInt 1) sample_df =
     Inr \<lparr>columns = [''a'', ''b''], rows = [[(''a'', VInt 3), (''b'', VNull)]]\<rparr>"
    by code_simp
  have h2: "[(''a'', VInt 3), (''b'', VNull)]
     \<in> set (rows \<lparr>columns = [''a'', ''b''], rows = [[(''a'', VInt 3), (''b'', VNull)]]\<rparr>)"
    by simp
  show ?thesis using h1 h2 filter_df_excludes_null [OF h1 h2] by simp
qed

section \<open>\<open>filter\<close> on a source without a query\<close>

lemma pushdown_not_sql: "\<not> is_sql s \<Longrightarrow> pushdown E w l g s = (Inl AssertionError, s)"
  by (simp add: pushdown_def)

lemma filter_ds_not_sql: "\<not> is_sql s \<Longrightarrow> filter_ds E w l g s = fallback E w l s"
  by (simp add: filter_ds_def pushdown_not_sql)

lemma df_head_pos: "0 < n \<Longrightarrow> df_head n t = t\<lparr>rows := take (nat n) (rows t)\<rparr>"
  by (simp add: df_head_def)

text \<open>
  C2: with the limit \<open>0\<close> the claim asks for the first zero rows of the unlimited
  result. On the example source without a query the predicate \<open>a > 0\<close> selects two rows,
  and \<open>filter\<close> with the limit \<open>0\<close> returns both of them, as it does without a limit:
  the \<open>except\<close> block tests \<open>if limit\<close>, which takes \<open>0\<close> for no limit. The \<open>try\<close>
  block tests \<open>limit is not None\<close>: on the query-backed example source the same call puts
  \<open>limit = 0\<close> into the query and returns no rows.
\<close>

theorem filter_limit_zero_returns_all_rows:
  "\<not> is_sql (init None) \<and>
   pushdown sample_env_limit (Some [(''a'', ''>'', VInt 0)]) (Some 0) False (init None) =
     (Inl AssertionError, init None) \<and>
   fst (filter_ds sample_env_limit (Some [(''a'', ''>'', VInt 0)]) None False (init None)) =
     Inr (RowsOnly \<lparr>columns = [''a'', ''b''],
                    rows = [[(''a'', VInt 1), (''b'', VStr ''x'')],
                            [(''a'', VInt 3), (''b'', VNull)]]\<rparr>) \<and>
   fst (filter_ds sample_env_limit (Some [(''a'', ''>'', VInt 0)]) (Some 0) False (init None)) =
     Inr (RowsOnly \<lparr>columns = [''a'', ''b''],
                    rows = [[(''a'', VInt 1), (''b'', VStr ''x'')],
                            [(''a'', VInt 3), (''b'', VNull)]]\<rparr>) \<and>
   take 0 [[(''a'', VInt 1), (''b'', VStr ''x'')], [(''a'', VInt 3), (''b'', VNull)]] = [] \<and>
   fst (filter_ds sample_env_limit (Some [(''a'', ''>'', VInt 0)]) (Some 0) False
          (init (Some ''SELECT * FROM t''))) =
     Inr (RowsOnly \<lparr>columns = [''a'', ''b''], rows = []\<rparr>)"
  by code_simp

text \<open>
  With a positive limit the \<open>except\<close> block does cut the result: on a source without a
  query the pushdown is not attempted, and \<open>filter\<close> with the limit ends as \<open>filter\<close>
  without a limit does, with the same exception or with the first \<open>n\<close> rows of its table.
\<close>

lemma fallback_positive_limit:
  assumes "\<not> is_sql s" and "0 < n"
  shows "pushdown E w (Some n) g s = (Inl AssertionError, s) \<and>
         (case filter_ds E w None g s of
            (Inl e, s1) \<Rightarrow> filter_ds E w (Some n) g s = (Inl e, s1)
          | (Inr r, s1) \<Rightarrow>
              (\<exists>t. r = RowsOnly t \<and>
                   filter_ds E w (Some n) g s =
                     (Inr (RowsOnly (t\<lparr>rows := take (nat n) (rows t)\<rparr>)), s1)))"
  using assms
  by (auto simp add: pushdown_not_sql filter_ds_not_sql fallback_def df_head_pos
           split: prod.splits sum.splits)

text \<open>
  C3: \<open>filter\<close> called with \<open>get_col_map=True\<close> returns the table alone when the
  \<open>except\<close> block produces the result: on the example source without a query, and on the
  query-backed one whose query the parser rejects. Only when the pushdown succeeds does it
  return the pair. The accessor \<open>_col_map\<close> unpacks the result as a pair in every case.
\<close>

theorem filter_fallback_ignores_get_col_map:
  "fst (filter_ds sample_env (Some []) (Some 1) True (init None)) =
     Inr (RowsOnly \<lparr>columns = [''a'', ''b''], rows = [[(''a'', VInt 1), (''b'', VStr ''x'')]]\<rparr>) \<and>
   fst (filter_ds sample_env_unparsable (Some []) (Some 1) True (init (Some ''SELECT * FROM t''))) =
     Inr (RowsOnly \<lparr>columns = [''a'', ''b''], rows = [[(''a'', VInt 1), (''b'', VStr ''x'')]]\<rparr>) \<and>
   fst (filter_ds sample_env (Some []) (Some 1) True (init (Some ''SELECT * FROM t''))) =
     Inr (RowsAndColMap sample_df sample_col_map)"
  by code_simp

section \<open>\<open>drop_columns\<close> on a source that is not materialized\<close>

text \<open>
  C6: on the query-backed example source, not yet materialized, \<open>drop_columns\<close> reads the
  column map, which the probe query fills without the table, and then fails with
  \<open>AttributeError\<close> on the table that is still \<open>None\<close>: nothing is dropped. With an empty
  list of columns the column map is not read at all and the call fails in the same way
  also without a query. On the source without a query a list that is not empty does
  materialize the table and drops the resolved column \<open>a\<close>.
\<close>

theorem drop_columns_query_backed_fails:
  "internal_df (init (Some ''SELECT * FROM t'')) = None \<and>
   drop_columns sample_env [''A''] (init (Some ''SELECT * FROM t'')) =
     (Inl AttributeError,
      (init (Some ''SELECT * FROM t''))\<lparr>internal_col_map := Some (ColDict sample_col_map)\<rparr>) \<and>
   drop_columns sample_env [] (init None) = (Inl AttributeError, init None) \<and>
   drop_columns sample_env [''A''] (init None) =
     (Inr (),
      (init None)\<lparr>internal_df := Some \<lparr>columns = [''b''],
                                      rows = [[(''b'', VStr ''x'')], [(''b'', VStr ''y'')],
                                              [(''b'', VNull)]]\<rparr>,
                  internal_col_map := Some (ColDict sample_col_map)\<rparr>)"
  by code_simp

section \<open>The order of the translated predicates\<close>

lemma where_step_where:
  assumes "where_step E c pq s = (Inr pq1, s1)"
  shows "\<exists>k j. map_of pq1 ''where'' = Some (JDict [(k, j)])"
  using assms
  by (auto simp: where_step_def Let_def condition_clause_def update_conv'
           split: prod.splits option.splits sum.splits if_splits)

lemma where_loop_append:
  "where_loop E (xs @ ys) pq s =
     (case where_loop E xs pq s of
        (Inl e, s1) \<Rightarrow> (Inl e, s1)
      | (Inr pq1, s1) \<Rightarrow> where_loop E ys pq1 s1)"
  by (induction xs arbitrary: pq s) (auto split: prod.splits sum.splits)

lemma where_loop_where:
  assumes "pre \<noteq> []" and "where_loop E pre pq s = (Inr pq1, s1)"
  shows "\<exists>k j. map_of pq1 ''where'' = Some (JDict [(k, j)])"
proof -
  from assms(1) obtain xs x where pre: "pre = xs @ [x]"
    by (metis append_butlast_last_id)
  from assms(2) obtain pq0 s0 where "where_step E x pq0 s0 = (Inr pq1, s1)"
    unfolding pre where_loop_append
    by (auto split: prod.splits sum.splits)
  then show ?thesis by (rule where_step_where)
qed

text \<open>
  C4: when the loop has translated the predicates \<open>pre\<close>, at least one, and reaches one
  more predicate \<open>(col, op, v)\<close> whose value it can prepare (a \<open>like\<close> needs a string), the
  where-clause becomes the \<open>and\<close> of two operands: first the clause of the new predicate,
  second the where-clause accumulated from \<open>pre\<close>.
\<close>

theorem where_newest_first:
  assumes "pre \<noteq> []"
      and "where_loop E pre pq s = (Inr pq1, s1)"
      and "like_value E (str_lower E op) v = Inr v'"
  shows "\<exists>past pq2 s2.
           map_of pq1 ''where'' = Some past \<and>
           where_loop E (pre @ [(col, op, v)]) pq s = (Inr pq2, s2) \<and>
           map_of pq2 ''where'' =
             Some (JDict [(''and'',
                     JList [condition_clause
                              (case map_of (binary_ops E) (str_lower E op) of
                                 Some j \<Rightarrow> j | None \<Rightarrow> str_lower E (str_lower E op)) col v',
                            past])])"
proof -
  from where_loop_where [OF assms(1,2)] obtain k j
    where past: "map_of pq1 ''where'' = Some (JDict [(k, j)])" by blast
  show ?thesis
    using past assms(2,3)
    by (auto simp: where_loop_append where_step_def Let_def py_len_def update_conv'
             split: option.splits)
qed

theorem where_newest_first_witness:
  "[(''a'', ''='', VInt 1)] \<noteq> [] \<and>
   where_loop sample_env [(''a'', ''='', VInt 1)] [(''select'', JStr ''*'')] (init (Some ''q'')) =
     (Inr [(''select'', JStr ''*''), (''where'', JDict [(''eq'', JList [JStr ''a'', JInt 1])])],
      init (Some ''q'')) \<and>
   like_value sample_env (str_lower sample_env ''>'') (VInt 5) = Inr (VInt 5) \<and>
   where_loop sample_env [(''a'', ''='', VInt 1), (''b'', ''>'', VInt 5)] [(''select'', JStr ''*'')]
       (init (Some ''q'')) =
     (Inr [(''select'', JStr ''*''),
           (''where'', JDict [(''and'', JList [JDict [(''gt'', JList [JStr ''b'', JInt 5])],
                                               JDict [(''eq'', JList [JStr ''a'', JInt 1])]])])],
      init (Some ''q''))"
proof -
  have h1: "[(''a'', ''='', VInt 1)] \<noteq> ([] :: condition list)" by simp
  have h2: "where_loop sample_env [(''a'', ''='', VInt 1)] [(''select'', JStr ''*'')]
       (init (Some ''q'')) =
     (Inr [(''select'', JStr ''*''), (''where'', JDict [(''eq'', JList [JStr ''a'', JInt 1])])],
      init (Some ''q''))" by code_simp
  have h3: "like_value sample_env (str_lower sample_env ''>'') (VInt 5) = Inr (VInt 5)" by code_simp
  have c: "where_loop sample_env [(''a'', ''='', VInt 1), (''b'', ''>'', VInt 5)]
       [(''select'', JStr ''*'')] (init (Some ''q'')) =
     (Inr [(''select'', JStr ''*''),
           (''where'', JDict [(''and'', JList [JDict [(''gt'', JList [JStr ''b'', JInt 5])],
                                               JDict [(''eq'', JList [JStr ''a'', JInt 1])]])])],
      init (Some ''q''))" by code_simp
  show ?thesis
    using h2 h3 c where_newest_first [OF h1 h2 h3, of "''b''"] by simp
qed

section \<open>What the operations change\<close>

lemma warnings_only_refl [simp]: "warnings_only s s"
  by (simp add: warnings_only_def)

lemma warnings_only_warning [simp]: "warnings_only s (warning m s)"
  by (simp add: warnings_only_def warning_def)

lemma warnings_only_trans: "warnings_only s s1 \<Longrightarrow> warnings_only s1 s2 \<Longrightarrow> warnings_only s s2"
  by (simp add: warnings_only_def)

lemma warnings_only_declared: "warnings_only s s1 \<Longrightarrow> declared_kept s s1"
  by (simp add: warnings_only_def declared_kept_def)

lemma declared_kept_refl [simp]: "declared_kept s s"
  by (simp add: declared_kept_def)

lemma declared_kept_trans: "declared_kept s s1 \<Longrightarrow> declared_kept s1 s2 \<Longrightarrow> declared_kept s s2"
  by (simp add: declared_kept_def)

lemma where_step_state: "warnings_only s (snd (where_step E c pq s))"
  by (auto simp: where_step_def Let_def split: prod.splits option.splits sum.splits)

lemma where_loop_state: "warnings_only s (snd (where_loop E cs pq s))"
proof (induction cs arbitrary: pq s)
  case Nil
  show ?case by simp
next
  case (Cons c cs)
  have step: "warnings_only s (snd (where_step E c pq s))" by (rule where_step_state)
  show ?case
  proof (cases "where_step E c pq s")
    case (Pair r s1)
    with step have s1: "warnings_only s s1" by simp
    show ?thesis
    proof (cases r)
      case (Inl e)
      with Pair s1 show ?thesis by simp
    next
      case (Inr pq1)
      with Pair s1 Cons.IH [of s1 pq1] show ?thesis
        by (auto intro: warnings_only_trans)
    qed
  qed
qed

lemma pushdown_state: "warnings_only s (snd (pushdown E w l g s))"
proof (cases "is_sql s")
  case False
  then show ?thesis by (simp add: pushdown_def)
next
  case True
  show ?thesis
  proof (cases "case query s of None \<Rightarrow> Inl TypeError | Some q \<Rightarrow> parse_sql E q")
    case (Inl e)
    with True show ?thesis by (simp add: pushdown_def)
  next
    case (Inr pq)
    have wl: "warnings_only s (snd (where_loop E (or_empty w) pq s))"
      by (rule where_loop_state)
    show ?thesis
    proof (cases "where_loop E (or_empty w) pq s")
      case (Pair r s1)
      with wl have "warnings_only s s1" by simp
      with True Inr Pair show ?thesis
        by (auto simp: pushdown_def Let_def split: sum.splits)
    qed
  qed
qed

lemma prop_df_declared: "declared_kept s (snd (prop_df E s))"
  by (auto simp: prop_df_def declared_kept_def split: option.splits sum.splits)

lemma fallback_state: "snd (fallback E w l s) = snd (prop_df E s)"
  by (auto simp: fallback_def split: prod.splits sum.splits)

lemma filter_ds_state:
  "\<exists>s1. warnings_only s s1 \<and>
     (snd (filter_ds E w l g s) = s1 \<or> snd (filter_ds E w l g s) = snd (prop_df E s1))"
proof -
  have "warnings_only s (snd (pushdown E w l g s))" by (rule pushdown_state)
  then show ?thesis
    by (cases "pushdown E w l g s")
       (auto simp: filter_ds_def fallback_state split: sum.splits)
qed

lemma filter_ds_declared: "declared_kept s (snd (filter_ds E w l g s))"
proof -
  from filter_ds_state [of s E w l g] obtain s1 where w: "warnings_only s s1"
    and d: "snd (filter_ds E w l g s) = s1 \<or> snd (filter_ds E w l g s) = snd (prop_df E s1)"
    by blast
  from d show ?thesis
  proof
    assume "snd (filter_ds E w l g s) = s1"
    with w show ?thesis by (simp add: warnings_only_declared)
  next
    assume "snd (filter_ds E w l g s) = snd (prop_df E s1)"
    with w prop_df_declared [of s1 E] show ?thesis
      by (auto intro: declared_kept_trans warnings_only_declared)
  qed
qed

lemma prop_col_map_declared: "declared_kept s (snd (prop_col_map E s))"
proof -
  have f: "declared_kept s (snd (filter_ds E (Some []) (Some 1) True s))"
    by (rule filter_ds_declared)
  show ?thesis
  proof (cases "filter_ds E (Some []) (Some 1) True s")
    case (Pair r s1)
    with f have "declared_kept s s1" by simp
    with Pair show ?thesis
      by (auto simp: prop_col_map_def declared_kept_def split: option.splits sum.splits)
  qed
qed


section \<open>Rows and column map, together or not\<close>

lemma both_or_neither_warnings: "warnings_only s s1 \<Longrightarrow> both_or_neither s1 = both_or_neither s"
  by (simp add: warnings_only_def both_or_neither_def)

lemma prop_df_both: "both_or_neither s \<Longrightarrow> both_or_neither (snd (prop_df E s))"
  by (auto simp: prop_df_def both_or_neither_def split: option.splits sum.splits)

lemma filter_ds_both:
  assumes "both_or_neither s"
  shows "both_or_neither (snd (filter_ds E w l g s))"
proof -
  from filter_ds_state [of s E w l g] obtain s1 where w: "warnings_only s s1"
    and d: "snd (filter_ds E w l g s) = s1 \<or> snd (filter_ds E w l g s) = snd (prop_df E s1)"
    by blast
  from w assms have b: "both_or_neither s1" by (simp add: both_or_neither_warnings)
  from d b show ?thesis by (auto intro: prop_df_both)
qed

lemma prop_col_map_both:
  assumes "\<not> is_sql s" and "both_or_neither s"
  shows "both_or_neither (snd (prop_col_map E s))"
  using assms
  by (auto simp: prop_col_map_def both_or_neither_def split: option.splits sum.splits)

lemma prop_col_map_paired: "paired s \<Longrightarrow> paired (snd (prop_col_map E s))"
  using prop_col_map_declared [of s E]
  by (auto simp: paired_def declared_kept_def intro: prop_col_map_both)

lemma prop_df_paired: "paired s \<Longrightarrow> paired (snd (prop_df E s))"
  using prop_df_declared [of s E]
  by (auto simp: paired_def declared_kept_def intro: prop_df_both)

lemma filter_ds_paired: "paired s \<Longrightarrow> paired (snd (filter_ds E w l g s))"
  using filter_ds_declared [of s E w l g]
  by (auto simp: paired_def declared_kept_def intro: filter_ds_both)

lemma columns_to_drop_paired: "paired s \<Longrightarrow> paired (snd (columns_to_drop E cs acc s))"
proof (induction cs arbitrary: acc s)
  case Nil
  then show ?case by simp
next
  case (Cons col cs)
  have p1: "paired (snd (prop_col_map E s))" using Cons.prems by (rule prop_col_map_paired)
  show ?case
  proof (cases "prop_col_map E s")
    case (Pair r s1)
    with p1 have s1: "paired s1" by simp
    then have p2: "paired (snd (prop_col_map E s1))" by (rule prop_col_map_paired)
    show ?thesis
    proof (cases "prop_col_map E s1")
      case P2: (Pair r2 s2)
      with p2 have s2: "paired s2" by simp
      show ?thesis
        using Pair P2 s1 s2 Cons.IH
        by (auto split: sum.splits)
    qed
  qed
qed

lemma drop_columns_paired:
  assumes "paired s"
  shows "paired (snd (drop_columns E cs s))"
proof -
  have p: "paired (snd (columns_to_drop E cs [] s))"
    using assms by (rule columns_to_drop_paired)
  show ?thesis
  proof (cases "columns_to_drop E cs [] s")
    case (Pair r s1)
    with p have "paired s1" by simp
    with Pair show ?thesis
      by (auto simp: drop_columns_def paired_def both_or_neither_def
               split: sum.splits option.splits)
  qed
qed

lemma paired_warning [simp]: "paired (warning m s) = paired s"
  by (simp add: paired_def both_or_neither_def warning_def)

lemma set_subtypes_paired: "paired s \<Longrightarrow> paired (snd (set_subtypes E m s))"
proof (induction m arbitrary: s)
  case Nil
  then show ?case by simp
next
  case (Cons x xs)
  obtain col subtype where x: "x = (col, subtype)" by (cases x)
  have p1: "paired (snd (prop_col_map E s))" using Cons.prems by (rule prop_col_map_paired)
  show ?case
  proof (cases "prop_col_map E s")
    case (Pair r s1)
    with p1 have s1: "paired s1" by simp
    have s1': "paired (s1\<lparr>data_types := a, data_subtypes := b\<rparr>)" for a b
      using s1 by (simp add: paired_def both_or_neither_def)
    show ?thesis
      unfolding x using Pair s1 s1' Cons.IH
      by (auto split: sum.splits option.splits)
  qed
qed

lemma paired_init: "paired (init None)"
  by (simp add: paired_def both_or_neither_def init_def)

text \<open>
  C1, as the claim states it, fails: on the query-backed example source, one read of the
  column map runs the probe \<open>filter(where=[], limit=1, get_col_map=True)\<close>, whose
  pushdown succeeds, and stores the column map while the table stays \<open>None\<close>.
\<close>

theorem col_map_without_rows_counterexample:
  "snd (prop_col_map sample_env (init (Some ''SELECT * FROM t''))) =
     (init (Some ''SELECT * FROM t''))\<lparr>internal_col_map := Some (ColDict sample_col_map)\<rparr> \<and>
   internal_df (snd (prop_col_map sample_env (init (Some ''SELECT * FROM t'')))) = None \<and>
   internal_col_map (snd (prop_col_map sample_env (init (Some ''SELECT * FROM t'')))) =
     Some (ColDict sample_col_map)"
  by code_simp

text \<open>
  C1, amended: for every source constructed without a query, in every state that it
  reaches by reading the rows, reading the column map, \<open>filter\<close>, \<open>drop_columns\<close> and
  \<open>set_subtypes\<close>, in any number and order, returning or raising, the cached table and
  the cached column map are both set or both unset.
\<close>

theorem rows_and_col_map_together:
  assumes "reachable E None s"
  shows "both_or_neither s"
proof -
  from assms have "paired s"
  proof (induction rule: reachable.induct)
    case constructed
    show ?case by (rule paired_init)
  next
    case (read_df s)
    then show ?case by (simp add: prop_df_paired)
  next
    case (read_col_map s)
    then show ?case by (simp add: prop_col_map_paired)
  next
    case (filtered s where_list limit get_col_map)
    then show ?case by (simp add: filter_ds_paired)
  next
    case (dropped s column_list)
    then show ?case by (simp add: drop_columns_paired)
  next
    case (subtyped s m)
    then show ?case by (simp add: set_subtypes_paired)
  qed
  then show ?thesis by (simp add: paired_def)
qed

theorem rows_and_col_map_together_witness:
  "reachable sample_env None (snd (prop_col_map sample_env (init None))) \<and>
   both_or_neither (snd (prop_col_map sample_env (init None))) \<and>
   internal_df (snd (prop_col_map sample_env (init None))) = Some sample_df \<and>
   internal_col_map (snd (prop_col_map sample_env (init None))) = Some (ColDict sample_col_map)"
proof -
  have h: "reachable sample_env None (snd (prop_col_map sample_env (init None)))"
    by (rule reachable.read_col_map) (rule reachable.constructed)
  have c: "internal_df (snd (prop_col_map sample_env (init None))) = Some sample_df \<and>
   internal_col_map (snd (prop_col_map sample_env (init None))) = Some (ColDict sample_col_map)"
    by code_simp
  show ?thesis using h c rows_and_col_map_together [OF h] by simp
qed

section \<open>\<open>set_subtypes\<close>: invalid subtypes and unknown columns\<close>

lemma prop_col_map_cached:
  "internal_col_map s = Some cm \<Longrightarrow> prop_col_map E s = (Inr cm, s)"
  by (simp add: prop_col_map_def)

lemma prop_col_map_stores:
  assumes "prop_col_map E s = (Inr cm, s1)"
  shows "internal_col_map s1 = Some cm"
  using assms
  by (auto simp: prop_col_map_def split: option.splits if_splits prod.splits sum.splits)

lemma prop_col_map_again:
  "prop_col_map E s = (Inr cm, s1) \<Longrightarrow> prop_col_map E s1 = (Inr cm, s1)"
  by (rule prop_col_map_cached) (rule prop_col_map_stores)

lemma internal_col_map_warning [simp]: "internal_col_map (warning m s) = internal_col_map s"
  by (simp add: warning_def)

lemma data_subtypes_warning [simp]: "data_subtypes (warning m s) = data_subtypes s"
  by (simp add: warning_def)

lemma data_types_warning [simp]: "data_types (warning m s) = data_types s"
  by (simp add: warning_def)

lemma warnings_warning [simp]: "warnings (warning m s) = warnings s @ [m]"
  by (simp add: warning_def)

lemma set_subtypes_first:
  assumes "prop_col_map E s = (Inr cm, s0)" and "m \<noteq> []"
  shows "set_subtypes E m s = set_subtypes E m s0"
proof -
  from assms(2) obtain col subtype rest where m: "m = (col, subtype) # rest"
    by (cases m) auto
  show ?thesis
    unfolding m using assms(1) prop_col_map_again [OF assms(1)] by simp
qed

lemma set_subtypes_append:
  "set_subtypes E (xs @ ys) s =
     (case set_subtypes E xs s of
        (Inl e, s1) \<Rightarrow> (Inl e, s1)
      | (Inr u, s1) \<Rightarrow> set_subtypes E ys s1)"
proof (induction xs arbitrary: s)
  case Nil
  show ?case by simp
next
  case (Cons x xs)
  obtain col subtype where x: "x = (col, subtype)" by (cases x)
  show ?case
    unfolding x by (simp add: Cons.IH split: prod.splits sum.splits option.splits)
qed

lemma set_subtypes_keeps_col_map:
  assumes "internal_col_map s = Some cm"
  shows "internal_col_map (snd (set_subtypes E m s)) = Some cm"
  using assms
proof (induction m arbitrary: s)
  case Nil
  then show ?case by simp
next
  case (Cons x xs)
  obtain col subtype where x: "x = (col, subtype)" by (cases x)
  show ?case
    unfolding x using Cons.prems
    by (simp add: prop_col_map_cached Cons.IH split: option.splits)
qed

lemma invalid_subtype_inject [simp]: "invalid_subtype a = invalid_subtype b \<longleftrightarrow> a = b"
  by (simp add: invalid_subtype_def)

lemma set_subtypes_keeps_df:
  assumes "internal_col_map s = Some cm"
  shows "internal_df (snd (set_subtypes E m s)) = internal_df s"
  using assms
proof (induction m arbitrary: s)
  case Nil
  then show ?case by simp
next
  case (Cons x xs)
  obtain col subtype where x: "x = (col, subtype)" by (cases x)
  show ?case
    unfolding x using Cons.prems
    by (simp add: prop_col_map_cached Cons.IH warning_def split: option.splits)
qed

text \<open>A column that no pair of the mapping can record keeps its declarations.\<close>

lemma set_subtypes_other_columns:
  assumes "internal_col_map s = Some cm"
      and "\<not> (k \<in> fst ` set m \<and> col_map_contains k cm)"
  shows "map_of (data_subtypes (snd (set_subtypes E m s))) k = map_of (data_subtypes s) k \<and>
         map_of (data_types (snd (set_subtypes E m s))) k = map_of (data_types s) k"
  using assms
proof (induction m arbitrary: s)
  case Nil
  then show ?case by simp
next
  case (Cons x xs)
  obtain c0 sub0 where x: "x = (c0, sub0)" by (cases x)
  have pc: "prop_col_map E s = (Inr cm, s)"
    using Cons.prems(1) by (rule prop_col_map_cached)
  have rest: "\<not> (k \<in> fst ` set xs \<and> col_map_contains k cm)"
    using Cons.prems(2) by auto
  show ?case
  proof (cases "col_map_contains c0 cm")
    case False
    have "set_subtypes E (x # xs) s = set_subtypes E xs (warning (column_warning c0 sub0) s)"
      using pc False by (simp add: x)
    with Cons.IH [of "warning (column_warning c0 sub0) s"] Cons.prems(1) rest
    show ?thesis by simp
  next
    case True
    then have ne: "c0 \<noteq> k" using Cons.prems(2) by (auto simp: x)
    show ?thesis
    proof (cases "find_type (DATA_TYPES_SUBTYPES E) sub0")
      case None
      with pc True show ?thesis by (simp add: x)
    next
      case (Some ty)
      define sb where "sb = s\<lparr>data_types := AList.update c0 ty (data_types s),
                               data_subtypes := AList.update c0 sub0 (data_subtypes s)\<rparr>"
      have eq: "set_subtypes E (x # xs) s = set_subtypes E xs sb"
        using pc True Some by (simp add: x sb_def)
      have "internal_col_map sb = Some cm" using Cons.prems(1) by (simp add: sb_def)
      from Cons.IH [OF this rest] ne show ?thesis
        by (simp add: eq sb_def update_conv')
    qed
  qed
qed

text \<open>What a run without an exception has recorded for each of its pairs.\<close>

lemma set_subtypes_recorded:
  assumes "internal_col_map s = Some cm"
      and "set_subtypes E m s = (Inr (), s')"
      and "distinct (map fst m)"
      and "(k, sub) \<in> set m"
      and "col_map_contains k cm"
  shows "find_type (DATA_TYPES_SUBTYPES E) sub \<noteq> None \<and>
         map_of (data_subtypes s') k = Some sub \<and>
         map_of (data_types s') k = find_type (DATA_TYPES_SUBTYPES E) sub"
  using assms(1,2,3,4)
proof (induction m arbitrary: s)
  case Nil
  then show ?case by simp
next
  case (Cons x xs)
  obtain c0 sub0 where x: "x = (c0, sub0)" by (cases x)
  have pc: "prop_col_map E s = (Inr cm, s)"
    using Cons.prems(1) by (rule prop_col_map_cached)
  have dist: "distinct (map fst xs)" and fresh: "c0 \<notin> fst ` set xs"
    using Cons.prems(3) by (auto simp: x)
  show ?case
  proof (cases "col_map_contains c0 cm")
    case False
    have eq: "set_subtypes E (x # xs) s = set_subtypes E xs (warning (column_warning c0 sub0) s)"
      using pc False by (simp add: x)
    have "(k, sub) \<noteq> x" using False assms(5) by (auto simp: x)
    then have mem: "(k, sub) \<in> set xs" using Cons.prems(4) by auto
    have "internal_col_map (warning (column_warning c0 sub0) s) = Some cm"
      using Cons.prems(1) by simp
    from Cons.IH [OF this _ dist mem] Cons.prems(2) eq show ?thesis by simp
  next
    case True
    show ?thesis
    proof (cases "find_type (DATA_TYPES_SUBTYPES E) sub0")
      case None
      with pc True Cons.prems(2) show ?thesis by (simp add: x)
    next
      case (Some ty)
      define sb where "sb = s\<lparr>data_types := AList.update c0 ty (data_types s),
                               data_subtypes := AList.update c0 sub0 (data_subtypes s)\<rparr>"
      have eq: "set_subtypes E (x # xs) s = set_subtypes E xs sb"
        using pc True Some by (simp add: x sb_def)
      have cmb: "internal_col_map sb = Some cm" using Cons.prems(1) by (simp add: sb_def)
      have run: "set_subtypes E xs sb = (Inr (), s')" using Cons.prems(2) eq by simp
      show ?thesis
      proof (cases "(k, sub) = x")
        case False
        then have mem: "(k, sub) \<in> set xs" using Cons.prems(4) by auto
        from Cons.IH [OF cmb run dist mem] show ?thesis .
      next
        case same: True
        then have k: "k = c0" and sub: "sub = sub0" by (simp_all add: x)
        have "\<not> (c0 \<in> fst ` set xs \<and> col_map_contains c0 cm)" using fresh by simp
        from set_subtypes_other_columns [OF cmb this, of E] run
        have "map_of (data_subtypes s') c0 = map_of (data_subtypes sb) c0 \<and>
              map_of (data_types s') c0 = map_of (data_types sb) c0" by simp
        then show ?thesis
          using Some by (simp add: k sub sb_def update_conv')
      qed
    qed
  qed
qed

text \<open>The first pair whose column is known and whose subtype is not stops the loop.\<close>

lemma invalid_pair_cached:
  assumes "internal_col_map s = Some cm"
      and "(col, subtype) \<in> set m"
      and "col_map_contains col cm"
      and "find_type (DATA_TYPES_SUBTYPES E) subtype = None"
  shows "\<exists>pre c bad post s'.
           m = pre @ (c, bad) # post \<and> col_map_contains c cm \<and>
           find_type (DATA_TYPES_SUBTYPES E) bad = None \<and>
           ((c, bad) = (col, subtype) \<or> (col, subtype) \<in> set post) \<and>
           set_subtypes E pre s = (Inr (), s') \<and>
           set_subtypes E m s = (Inl (ValueError (''Invalid data subtype: '' @ bad)), s')"
  using assms(1,2)
proof (induction m arbitrary: s)
  case Nil
  then show ?case by simp
next
  case (Cons x xs)
  obtain c0 sub0 where x: "x = (c0, sub0)" by (cases x)
  have pc: "prop_col_map E s = (Inr cm, s)"
    using Cons.prems(1) by (rule prop_col_map_cached)
  show ?case
  proof (cases "col_map_contains c0 cm \<and> find_type (DATA_TYPES_SUBTYPES E) sub0 = None")
    case True
    have "x # xs = [] @ (c0, sub0) # xs" by (simp add: x)
    moreover have "set_subtypes E [] s = (Inr (), s)" by simp
    moreover have "set_subtypes E (x # xs) s =
        (Inl (ValueError (''Invalid data subtype: '' @ sub0)), s)"
      using True pc by (simp add: x)
    moreover have "(c0, sub0) = (col, subtype) \<or> (col, subtype) \<in> set xs"
      using Cons.prems(2) by (auto simp: x)
    ultimately show ?thesis using True by blast
  next
    case False
    define s1 where "s1 =
      (if \<not> col_map_contains c0 cm then warning (column_warning c0 sub0) s
       else s\<lparr>data_types := AList.update c0 (the (find_type (DATA_TYPES_SUBTYPES E) sub0)) (data_types s),
              data_subtypes := AList.update c0 sub0 (data_subtypes s)\<rparr>)"
    have step: "set_subtypes E ((c0, sub0) # ys) s = set_subtypes E ys s1" for ys
      using False pc by (auto simp: s1_def)
    have cm1: "internal_col_map s1 = Some cm"
      using Cons.prems(1) by (simp add: s1_def)
    have "(col, subtype) \<noteq> x"
      using False assms(3,4) by (auto simp: x)
    then have mem: "(col, subtype) \<in> set xs"
      using Cons.prems(2) by auto
    from Cons.IH [OF cm1 mem] obtain pre c bad post s'
      where xs: "xs = pre @ (c, bad) # post" and c: "col_map_contains c cm"
        and bad: "find_type (DATA_TYPES_SUBTYPES E) bad = None"
        and which: "(c, bad) = (col, subtype) \<or> (col, subtype) \<in> set post"
        and pre: "set_subtypes E pre s1 = (Inr (), s')"
        and all: "set_subtypes E xs s1 = (Inl (ValueError (''Invalid data subtype: '' @ bad)), s')"
      by blast
    have "x # xs = (x # pre) @ (c, bad) # post" by (simp add: xs)
    moreover have "set_subtypes E (x # pre) s = (Inr (), s')"
      using pre step by (simp add: x)
    moreover have "set_subtypes E (x # xs) s =
        (Inl (ValueError (''Invalid data subtype: '' @ bad)), s')"
      using all step by (simp add: x)
    ultimately show ?thesis using c bad which by blast
  qed
qed

text \<open>
  C8: let the column map be readable (it is \<open>cm\<close>) and let the mapping, a dict, hold a
  pair \<open>(col, subtype)\<close> whose column is in \<open>cm\<close> and whose subtype is in no category of
  the registry. Then \<open>set_subtypes\<close> raises \<open>ValueError\<close> with the message
  \<open>Invalid data subtype: \<close> followed by the subtype \<open>bad\<close> of the first such pair, which
  is that pair or one before it. In the state that the call leaves, every pair before the
  offending one whose column is in \<open>cm\<close> is recorded, subtype and type; every other column
  has the declared subtype and type that it had before the call; and the cached table and
  column map are those of the first read of the column map.
\<close>

theorem set_subtypes_invalid:
  assumes "prop_col_map E s = (Inr cm, s0)"
      and "distinct (map fst m)"
      and "(col, subtype) \<in> set m"
      and "col_map_contains col cm"
      and "find_type (DATA_TYPES_SUBTYPES E) subtype = None"
  shows "\<exists>pre c bad post s'.
           m = pre @ (c, bad) # post \<and> col_map_contains c cm \<and>
           find_type (DATA_TYPES_SUBTYPES E) bad = None \<and>
           ((c, bad) = (col, subtype) \<or> (col, subtype) \<in> set post) \<and>
           set_subtypes E m s = (Inl (ValueError (''Invalid data subtype: '' @ bad)), s') \<and>
           (\<forall>k sub. (k, sub) \<in> set pre \<and> col_map_contains k cm \<longrightarrow>
              find_type (DATA_TYPES_SUBTYPES E) sub \<noteq> None \<and>
              map_of (data_subtypes s') k = Some sub \<and>
              map_of (data_types s') k = find_type (DATA_TYPES_SUBTYPES E) sub) \<and>
           (\<forall>k. \<not> (k \<in> fst ` set pre \<and> col_map_contains k cm) \<longrightarrow>
              map_of (data_subtypes s') k = map_of (data_subtypes s) k \<and>
              map_of (data_types s') k = map_of (data_types s) k) \<and>
           internal_df s' = internal_df s0 \<and> internal_col_map s' = Some cm"
proof -
  have cached: "internal_col_map s0 = Some cm"
    using assms(1) by (rule prop_col_map_stores)
  have ne: "m \<noteq> []" using assms(3) by auto
  have first: "set_subtypes E m s = set_subtypes E m s0"
    using assms(1) ne by (rule set_subtypes_first)
  have kept: "data_types s0 = data_types s" "data_subtypes s0 = data_subtypes s"
    using prop_col_map_declared [of s E] assms(1) by (simp_all add: declared_kept_def)
  from invalid_pair_cached [OF cached assms(3,4,5)] obtain pre c bad post s'
    where m: "m = pre @ (c, bad) # post" and c: "col_map_contains c cm"
      and bad: "find_type (DATA_TYPES_SUBTYPES E) bad = None"
      and which: "(c, bad) = (col, subtype) \<or> (col, subtype) \<in> set post"
      and pre: "set_subtypes E pre s0 = (Inr (), s')"
      and all: "set_subtypes E m s0 = (Inl (ValueError (''Invalid data subtype: '' @ bad)), s')"
    by blast
  have dist: "distinct (map fst pre)" using assms(2) by (simp add: m)
  have s': "s' = snd (set_subtypes E pre s0)" using pre by simp
  have recorded: "find_type (DATA_TYPES_SUBTYPES E) sub \<noteq> None \<and>
      map_of (data_subtypes s') k = Some sub \<and>
      map_of (data_types s') k = find_type (DATA_TYPES_SUBTYPES E) sub"
    if "(k, sub) \<in> set pre \<and> col_map_contains k cm" for k sub
    using set_subtypes_recorded [OF cached pre dist] that by blast
  have others: "map_of (data_subtypes s') k = map_of (data_subtypes s) k \<and>
      map_of (data_types s') k = map_of (data_types s) k"
    if "\<not> (k \<in> fst ` set pre \<and> col_map_contains k cm)" for k
    using set_subtypes_other_columns [OF cached that, of E] kept by (simp add: s')
  have df: "internal_df s' = internal_df s0"
    unfolding s' using cached by (rule set_subtypes_keeps_df)
  have cm': "internal_col_map s' = Some cm"
    unfolding s' using cached by (rule set_subtypes_keeps_col_map)
  have run: "set_subtypes E m s = (Inl (ValueError (''Invalid data subtype: '' @ bad)), s')"
    using all first by simp
  show ?thesis
    using m c bad which run recorded others df cm' by blast
qed

text \<open>
  An earlier call has declared \<open>B\<close> as \<open>Short\<close>. The next call records \<open>A\<close>, skips the
  unknown column \<open>x\<close> and fails on the subtype \<open>nope\<close> of \<open>B\<close>: the error names \<open>nope\<close>,
  \<open>A\<close> stays recorded and \<open>B\<close> stays \<open>Short\<close>.
\<close>

theorem set_subtypes_invalid_witness:
  "snd (set_subtypes sample_env [(''B'', ''Short'')] (init None)) =
     (init None)\<lparr>data_types := [(''B'', ''Text'')], data_subtypes := [(''B'', ''Short'')],
                 internal_df := Some sample_df,
                 internal_col_map := Some (ColDict sample_col_map)\<rparr> \<and>
   prop_col_map sample_env
       ((init None)\<lparr>data_types := [(''B'', ''Text'')], data_subtypes := [(''B'', ''Short'')],
                   internal_df := Some sample_df,
                   internal_col_map := Some (ColDict sample_col_map)\<rparr>) =
     (Inr (ColDict sample_col_map),
      (init None)\<lparr>data_types := [(''B'', ''Text'')], data_subtypes := [(''B'', ''Short'')],
                  internal_df := Some sample_df,
                  internal_col_map := Some (ColDict sample_col_map)\<rparr>) \<and>
   distinct (map fst [(''A'', ''Int''), (''x'', ''Float''), (''B'', ''nope'')]) \<and>
   (''B'', ''nope'') \<in> set [(''A'', ''Int''), (''x'', ''Float''), (''B'', ''nope'')] \<and>
   col_map_contains ''B'' (ColDict sample_col_map) \<and>
   find_type (DATA_TYPES_SUBTYPES sample_env) ''nope'' = None \<and>
   set_subtypes sample_env [(''A'', ''Int''), (''x'', ''Float''), (''B'', ''nope'')]
       ((init None)\<lparr>data_types := [(''B'', ''Text'')], data_subtypes := [(''B'', ''Short'')],
                   internal_df := Some sample_df,
                   internal_col_map := Some (ColDict sample_col_map)\<rparr>) =
     (Inl (ValueError ''Invalid data subtype: nope''),
      (init None)\<lparr>data_types := [(''B'', ''Text''), (''A'', ''Numeric'')],
                  data_subtypes := [(''B'', ''Short''), (''A'', ''Int'')],
                  internal_df := Some sample_df,
                  internal_col_map := Some (ColDict sample_col_map),
                  warnings := [column_warning ''x'' ''Float'']\<rparr>)"
proof -
  let ?s = "(init None)\<lparr>data_types := [(''B'', ''Text'')], data_subtypes := [(''B'', ''Short'')],
                 internal_df := Some sample_df,
                 internal_col_map := Some (ColDict sample_col_map)\<rparr>"
  let ?m = "[(''A'', ''Int''), (''x'', ''Float''), (''B'', ''nope'')]"
  have h0: "snd (set_subtypes sample_env [(''B'', ''Short'')] (init None)) = ?s" by code_simp
  have h1: "prop_col_map sample_env ?s = (Inr (ColDict sample_col_map), ?s)" by code_simp
  have h2: "distinct (map fst ?m)" by simp
  have h3: "(''B'', ''nope'') \<in> set ?m" by simp
  have h4: "col_map_contains ''B'' (ColDict sample_col_map)" by code_simp
  have h5: "find_type (DATA_TYPES_SUBTYPES sample_env) ''nope'' = None" by code_simp
  have c: "set_subtypes sample_env ?m ?s =
     (Inl (ValueError ''Invalid data subtype: nope''),
      (init None)\<lparr>data_types := [(''B'', ''Text''), (''A'', ''Numeric'')],
                  data_subtypes := [(''B'', ''Short''), (''A'', ''Int'')],
                  internal_df := Some sample_df,
                  internal_col_map := Some (ColDict sample_col_map),
                  warnings := [column_warning ''x'' ''Float'']\<rparr>)" by code_simp
  show ?thesis
    using h0 h1 h2 h3 h4 h5 c set_subtypes_invalid [OF h1 h2 h3 h4 h5]
    by simp
qed

lemma set_subtypes_absent_key:
  assumes "prop_col_map E (snd (set_subtypes E m s)) = (Inr cm, s2)"
      and "\<not> col_map_contains col cm"
  shows "map_of (data_subtypes (snd (set_subtypes E m s))) col = map_of (data_subtypes s) col \<and>
         map_of (data_types (snd (set_subtypes E m s))) col = map_of (data_types s) col"
  using assms(1)
proof (induction m arbitrary: s)
  case Nil
  show ?case by simp
next
  case (Cons x xs)
  obtain c0 sub0 where x: "x = (c0, sub0)" by (cases x)
  obtain r sa where pc: "prop_col_map E s = (r, sa)" by (cases "prop_col_map E s")
  have kept: "data_types sa = data_types s \<and> data_subtypes sa = data_subtypes s"
    using prop_col_map_declared [of s E] pc by (simp add: declared_kept_def)
  show ?case
  proof (cases r)
    case (Inl e)
    with pc kept show ?thesis by (simp add: x)
  next
    case (Inr cm0)
    have cached: "internal_col_map sa = Some cm0"
      using pc Inr prop_col_map_stores by simp
    show ?thesis
    proof (cases "col_map_contains c0 cm0")
      case False
      have eq: "set_subtypes E (x # xs) s = set_subtypes E xs (warning (column_warning c0 sub0) sa)"
        using pc Inr False by (simp add: x)
      from Cons.IH [of "warning (column_warning c0 sub0) sa"] Cons.prems kept
      show ?thesis by (simp add: eq)
    next
      case True
      show ?thesis
      proof (cases "find_type (DATA_TYPES_SUBTYPES E) sub0")
        case None
        with pc Inr True kept show ?thesis by (simp add: x)
      next
        case (Some ty)
        define sb where "sb = sa\<lparr>data_types := AList.update c0 ty (data_types sa),
                                 data_subtypes := AList.update c0 sub0 (data_subtypes sa)\<rparr>"
        have eq: "set_subtypes E (x # xs) s = set_subtypes E xs sb"
          using pc Inr True Some by (simp add: x sb_def)
        have "internal_col_map sb = Some cm0" using cached by (simp add: sb_def)
        then have "internal_col_map (snd (set_subtypes E xs sb)) = Some cm0"
          by (rule set_subtypes_keeps_col_map)
        then have "prop_col_map E (snd (set_subtypes E xs sb)) = (Inr cm0, snd (set_subtypes E xs sb))"
          by (rule prop_col_map_cached)
        with Cons.prems have "cm = cm0" by (simp add: eq)
        with True assms(2) have ne: "c0 \<noteq> col" by auto
        from Cons.IH [of sb] Cons.prems
        have "map_of (data_subtypes (snd (set_subtypes E xs sb))) col = map_of (data_subtypes sb) col \<and>
              map_of (data_types (snd (set_subtypes E xs sb))) col = map_of (data_types sb) col"
          by (simp add: eq)
        with ne kept show ?thesis
          by (simp add: eq sb_def update_conv')
      qed
    qed
  qed
qed

text \<open>
  C9: when the pairs before it have been recorded without an exception and the column map,
  \<open>cm\<close>, does not hold the column of the pair \<open>(col, subtype)\<close>, the pair is skipped: the
  call goes on with the pairs after it from a state that differs only by the warning
  appended to the log, with the declared types and subtypes untouched; and when the whole
  call ends, the declared subtype of \<open>col\<close> is what it was before the call.
\<close>

theorem set_subtypes_unknown_column:
  assumes "set_subtypes E pre s = (Inr (), s1)"
      and "prop_col_map E s1 = (Inr cm, s2)"
      and "\<not> col_map_contains col cm"
  shows "set_subtypes E (pre @ (col, subtype) # post) s =
           set_subtypes E post (warning (column_warning col subtype) s2) \<and>
         warnings (warning (column_warning col subtype) s2) =
           warnings s2 @ [column_warning col subtype] \<and>
         data_subtypes (warning (column_warning col subtype) s2) = data_subtypes s1 \<and>
         data_types (warning (column_warning col subtype) s2) = data_types s1 \<and>
         map_of (data_subtypes (snd (set_subtypes E (pre @ (col, subtype) # post) s))) col =
           map_of (data_subtypes s) col"
proof -
  let ?s3 = "warning (column_warning col subtype) s2"
  have run: "set_subtypes E (pre @ (col, subtype) # post) s = set_subtypes E post ?s3"
    using assms by (simp add: set_subtypes_append)
  have kept: "data_types s2 = data_types s1 \<and> data_subtypes s2 = data_subtypes s1"
    using prop_col_map_declared [of s1 E] assms(2) by (simp add: declared_kept_def)
  have "internal_col_map ?s3 = Some cm"
    using assms(2) prop_col_map_stores by simp
  then have "internal_col_map (snd (set_subtypes E post ?s3)) = Some cm"
    by (rule set_subtypes_keeps_col_map)
  then have "prop_col_map E (snd (set_subtypes E (pre @ (col, subtype) # post) s)) =
      (Inr cm, snd (set_subtypes E (pre @ (col, subtype) # post) s))"
    unfolding run by (rule prop_col_map_cached)
  from set_subtypes_absent_key [OF this assms(3)] run kept
  show ?thesis by simp
qed

theorem set_subtypes_unknown_column_witness:
  "set_subtypes sample_env [] (init None) = (Inr (), init None) \<and>
   prop_col_map sample_env (init None) =
     (Inr (ColDict sample_col_map),
      (init None)\<lparr>internal_df := Some sample_df,
                  internal_col_map := Some (ColDict sample_col_map)\<rparr>) \<and>
   \<not> col_map_contains ''x'' (ColDict sample_col_map) \<and>
   set_subtypes sample_env [(''x'', ''Int'')] (init None) =
     (Inr (),
      (init None)\<lparr>internal_df := Some sample_df,
                  internal_col_map := Some (ColDict sample_col_map),
                  warnings := [column_warning ''x'' ''Int'']\<rparr>) \<and>
   data_subtypes (snd (set_subtypes sample_env [(''x'', ''Int'')] (init None))) = []"
proof -
  have h1: "set_subtypes sample_env [] (init None) = (Inr (), init None)" by simp
  have h2: "prop_col_map sample_env (init None) =
     (Inr (ColDict sample_col_map),
      (init None)\<lparr>internal_df := Some sample_df,
                  internal_col_map := Some (ColDict sample_col_map)\<rparr>)" by code_simp
  have h3: "\<not> col_map_contains ''x'' (ColDict sample_col_map)" by code_simp
  have c: "set_subtypes sample_env [(''x'', ''Int'')] (init None) =
     (Inr (),
      (init None)\<lparr>internal_df := Some sample_df,
                  internal_col_map := Some (ColDict sample_col_map),
                  warnings := [column_warning ''x'' ''Int'']\<rparr>)" by code_simp
  show ?thesis
    using h1 h2 h3 c set_subtypes_unknown_column [OF h1 h2 h3, of "''Int''" "[]"]
    by (simp add: init_def)
qed

lemma invalid_error_source:
  assumes "internal_col_map s = Some cm"
      and "set_subtypes E m s = (Inl (invalid_subtype subtype), s')"
  shows "\<exists>c. (c, subtype) \<in> set m \<and> col_map_contains c cm"
  using assms
proof (induction m arbitrary: s)
  case Nil
  then show ?case by simp
next
  case (Cons x xs)
  obtain c0 sub0 where x: "x = (c0, sub0)" by (cases x)
  have pc: "prop_col_map E s = (Inr cm, s)"
    using Cons.prems(1) by (rule prop_col_map_cached)
  show ?case
  proof (cases "col_map_contains c0 cm")
    case False
    have "set_subtypes E (x # xs) s = set_subtypes E xs (warning (column_warning c0 sub0) s)"
      using pc False by (simp add: x)
    with Cons.prems(2) Cons.IH [of "warning (column_warning c0 sub0) s"] Cons.prems(1)
    show ?thesis by auto
  next
    case True
    show ?thesis
    proof (cases "find_type (DATA_TYPES_SUBTYPES E) sub0")
      case None
      with pc True Cons.prems(2) have "sub0 = subtype" by (simp add: x invalid_subtype_def)
      with True show ?thesis by (auto simp: x)
    next
      case (Some ty)
      define sb where "sb = s\<lparr>data_types := AList.update c0 ty (data_types s),
                               data_subtypes := AList.update c0 sub0 (data_subtypes s)\<rparr>"
      have "set_subtypes E (x # xs) s = set_subtypes E xs sb"
        using pc True Some by (simp add: x sb_def)
      moreover have "internal_col_map sb = Some cm" using Cons.prems(1) by (simp add: sb_def)
      ultimately show ?thesis using Cons.prems(2) Cons.IH [of sb] by auto
    qed
  qed
qed

text \<open>
  C10: when the column map can be read and no pair of the mapping with the subtype
  \<open>subtype\<close> has its column in the column map, the call does not raise the invalid-subtype
  error for \<open>subtype\<close>, whether or not the registry knows \<open>subtype\<close>: the membership of the
  column is tested before the registry is searched.
\<close>

theorem set_subtypes_column_checked_first:
  assumes "prop_col_map E s = (Inr cm, s0)"
      and "\<And>c. (c, subtype) \<in> set m \<Longrightarrow> \<not> col_map_contains c cm"
  shows "fst (set_subtypes E m s) \<noteq> Inl (invalid_subtype subtype)"
proof
  assume bad: "fst (set_subtypes E m s) = Inl (invalid_subtype subtype)"
  then have ne: "m \<noteq> []" by auto
  have first: "set_subtypes E m s = set_subtypes E m s0"
    using assms(1) ne by (rule set_subtypes_first)
  have cached: "internal_col_map s0 = Some cm"
    using assms(1) by (rule prop_col_map_stores)
  obtain s' where "set_subtypes E m s0 = (Inl (invalid_subtype subtype), s')"
    using bad first by (cases "set_subtypes E m s0") auto
  from invalid_error_source [OF cached this] assms(2)
  show False by blast
qed

theorem set_subtypes_column_checked_first_witness:
  "prop_col_map sample_env (init None) =
     (Inr (ColDict sample_col_map),
      (init None)\<lparr>internal_df := Some sample_df,
                  internal_col_map := Some (ColDict sample_col_map)\<rparr>) \<and>
   \<not> col_map_contains ''x'' (ColDict sample_col_map) \<and>
   find_type (DATA_TYPES_SUBTYPES sample_env) ''nope'' = None \<and>
   fst (set_subtypes sample_env [(''x'', ''nope''), (''A'', ''Int'')] (init None)) \<noteq>
     Inl (invalid_subtype ''nope'') \<and>
   fst (set_subtypes sample_env [(''x'', ''nope''), (''A'', ''Int'')] (init None)) = Inr ()"
proof -
  have h1: "prop_col_map sample_env (init None) =
     (Inr (ColDict sample_col_map),
      (init None)\<lparr>internal_df := Some sample_df,
                  internal_col_map := Some (ColDict sample_col_map)\<rparr>)" by code_simp
  have h3: "\<not> col_map_contains ''x'' (ColDict sample_col_map)" by code_simp
  have h2: "\<not> col_map_contains c (ColDict sample_col_map)"
    if "(c, ''nope'') \<in> set [(''x'', ''nope''), (''A'', ''Int'')]" for c
    using that h3 by auto
  have h4: "find_type (DATA_TYPES_SUBTYPES sample_env) ''nope'' = None" by code_simp
  have c: "fst (set_subtypes sample_env [(''x'', ''nope''), (''A'', ''Int'')] (init None)) = Inr ()"
    by code_simp
  show ?thesis
    using h1 h3 h4 c set_subtypes_column_checked_first [OF h1 h2]
    by simp
qed

end
